theory Spec2Isabelle
  imports Main "HOL-Library.Multiset"
begin

section \<open>Human-in-the-loop tool-call reconciliation (src/src/utils.ts)\<close>

subsection \<open>Values of the host language\<close>

text \<open>
  Tool arguments and tool results are arbitrary JSON-like values (\<open>any\<close>, \<open>unknown\<close> in
  the source). Strict equality \<open>===\<close> against a string constant holds exactly for the
  string value with the same characters.
\<close>

datatype jsvalue =
    JUndefined
  | JNull
  | JBool bool
  | JNumber int
  | JString string
  | JArray "jsvalue list"
  | JObject "(string \<times> jsvalue) list"

text \<open>
  What a resolver can raise: an \<open>Error\<close> object (name and message), or a bare string.
  \<open>toString\<close> is the conversion the template literal \<open>`${error}`\<close> applies: for an
  \<open>Error\<close> object it is \<open>Error.prototype.toString\<close>.
\<close>

datatype thrown = ErrorObject string string | ThrownString string

fun toString :: "thrown \<Rightarrow> string" where
  "toString (ErrorObject name msg) =
     (if name = [] then msg else if msg = [] then name else name @ '': '' @ msg)"
| "toString (ThrownString s) = s"

subsection \<open>Messages, parts and tool invocations (types of @ai-sdk/ui-utils)\<close>

datatype role = System | User | Assistant | Data

datatype tool_state = PartialCall | Call | Result

text \<open>
  \<open>ToolInvocation\<close> is a union discriminated by \<open>state\<close>: a \<open>ToolCall\<close> in the states
  \<open>partial-call\<close> and \<open>call\<close>, a \<open>ToolResult\<close> (a call together with its \<open>result\<close>) in
  the state \<open>result\<close>. Reading \<open>.result\<close> where the property is absent gives
  \<open>undefined\<close>.
\<close>

record tool_call =
  step :: "nat option"
  toolCallId :: string
  toolName :: string
  args :: jsvalue

datatype tool_invocation =
    ToolInvocationPartialCall tool_call
  | ToolInvocationCall tool_call
  | ToolInvocationResult tool_call jsvalue

fun state :: "tool_invocation \<Rightarrow> tool_state" where
  "state (ToolInvocationPartialCall c) = PartialCall"
| "state (ToolInvocationCall c) = Call"
| "state (ToolInvocationResult c r) = Result"

fun call :: "tool_invocation \<Rightarrow> tool_call" where
  "call (ToolInvocationPartialCall c) = c"
| "call (ToolInvocationCall c) = c"
| "call (ToolInvocationResult c r) = c"

fun result :: "tool_invocation \<Rightarrow> jsvalue" where
  "result (ToolInvocationPartialCall c) = JUndefined"
| "result (ToolInvocationCall c) = JUndefined"
| "result (ToolInvocationResult c r) = r"

datatype part =
    TextUIPart string
  | ReasoningUIPart string
  | ToolInvocationUIPart tool_invocation
  | SourceUIPart jsvalue
  | FileUIPart string string
  | StepStartUIPart

text \<open>
  A message; \<open>parts\<close> is \<open>None\<close> when the message has no parts collection
  (\<open>!parts\<close> holds; an empty array is truthy and is \<open>Some []\<close>). \<open>createdAt\<close> is the
  optional timestamp.
\<close>

record message =
  id' :: string
  createdAt :: "nat option"
  content :: string
  role :: role
  parts :: "part list option"

subsection \<open>Decision sentinels, resolvers, the output stream\<close>

text \<open>
  \<open>APPROVAL\<close> is imported from \<open>./shared\<close>, which is not among the sources at hand: the
  two string constants are a parameter of the model.
\<close>

record approval =
  YES :: string
  NO :: string

text \<open>
  A resolver (a function-valued property of \<open>executions\<close>) is called with the arguments
  and the execution options \<open>{messages, toolCallId}\<close>; the promise it returns is taken to
  settle: it is fulfilled with a value or rejected with what was raised (a resolver that
  raises before it returns a promise is caught by the same \<open>catch\<close> and counts as a
  rejection).

  The core messages that the library function \<open>convertToCoreMessages\<close> builds from the
  transcript are plain data, a \<open>jsvalue\<close>. That function is a parameter of the model; it
  returns the core messages (\<open>Inr\<close>) or raises (\<open>Inl\<close>).
\<close>

datatype tool_execution_options = ToolExecutionOptions jsvalue string

datatype settlement = Fulfilled jsvalue | Rejected thrown

type_synonym resolver = "jsvalue \<Rightarrow> tool_execution_options \<Rightarrow> settlement"

text \<open>
  \<open>executions\<close> is an object: it has its own properties (the keys of the map; their
  type is optional, so a key can be present and carry no function) and the properties it
  inherits through its prototype chain (for an object literal, those of
  \<open>Object.prototype\<close>). The value of a property is a function, or a falsy value such as
  \<open>undefined\<close> (\<open>NoFunction\<close>), or a truthy value that is not a function
  (\<open>NotCallable\<close>). Both \<open>key in obj\<close> and \<open>obj[key]\<close> look among the own properties
  first and then among the inherited ones; \<open>obj[key]\<close> of a name found nowhere is
  \<open>undefined\<close>.
\<close>

datatype entry = NoFunction | Function resolver | NotCallable

record executions =
  own :: "string \<Rightarrow> entry option"
  inherited :: "string \<Rightarrow> entry option"

definition property :: "executions \<Rightarrow> string \<Rightarrow> entry" where
  "property obj key =
     (case own obj key of
        Some v \<Rightarrow> v
      | None \<Rightarrow> (case inherited obj key of Some v \<Rightarrow> v | None \<Rightarrow> NoFunction))"

fun truthy :: "entry \<Rightarrow> bool" where
  "truthy NoFunction = False"
| "truthy (Function f) = True"
| "truthy NotCallable = True"

text \<open>
  The observable effects: the log of resolver invocations (tool name, arguments, options),
  in the order the calls are made, and the parts written to \<open>dataStream\<close>, in the order
  they are written. \<open>formatDataStreamPart("tool_result", {toolCallId, result})\<close> is the
  written part. Results are JSON-like values, which \<open>formatDataStreamPart\<close> can serialise:
  formatting and writing are taken not to fail.
\<close>

record resolver_call =
  tool :: string
  arguments :: jsvalue
  options :: tool_execution_options

datatype stream_part = ToolResultPart string jsvalue

record world =
  calls :: "resolver_call list"
  dataStream :: "stream_part list"

datatype js_error = TypeError

subsection \<open>The callback of \<open>parts.map\<close>\<close>

definition isValidToolName :: "string \<Rightarrow> executions \<Rightarrow> bool" where
  "isValidToolName key obj = (own obj key \<noteq> None \<or> inherited obj key \<noteq> None)"

text \<open>
  Lines 282-300: write the tool result to the stream and return the part with the
  invocation's \<open>result\<close> replaced. These lines are reached only past the check of line
  218, where the invocation is of the \<open>result\<close> variant: the spread keeps its state and
  its call fields.
\<close>

definition forwardResult ::
  "tool_invocation \<Rightarrow> jsvalue \<Rightarrow> world \<Rightarrow> part \<times> world" where
  "forwardResult toolInvocation r w =
     (ToolInvocationUIPart (ToolInvocationResult (call toolInvocation) r),
      w\<lparr>dataStream := dataStream w @
           [ToolResultPart (toolCallId (call toolInvocation)) r]\<rparr>)"

text \<open>
  The callback runs synchronously up to its first \<open>await\<close>. It either returns a part
  (\<open>Returned\<close>), or it has called the resolver and is suspended on the promise the
  resolver returned (\<open>Awaiting\<close>, with the invocation it will update).

  Lines 247-262: the call \<open>toolInstance(args, {messages: convertToCoreMessages(messages),
  toolCallId})\<close> stands inside the \<open>try\<close>. Its arguments are evaluated first, so when the
  conversion raises, the resolver is not called and the \<open>catch\<close> turns the conversion
  error into the result; then a \<open>toolInstance\<close> that is not a function makes the call
  raise a \<open>TypeError\<close>, caught likewise. In both cases no \<open>await\<close> is reached and the
  callback runs on to line 282.
\<close>

datatype progress = Returned part | Awaiting tool_invocation settlement

definition caught :: "thrown \<Rightarrow> jsvalue" where
  "caught e = JString (''Error executing tool: '' @ toString e)"

definition processPart ::
  "approval \<Rightarrow> executions \<Rightarrow> (message list \<Rightarrow> thrown + jsvalue) \<Rightarrow> message list \<Rightarrow>
   part \<Rightarrow> world \<Rightarrow> progress \<times> world" where
  "processPart APPROVAL executions convertToCoreMessages messages part w =
     (case part of
        ToolInvocationUIPart toolInvocation \<Rightarrow>
          let toolName = toolName (call toolInvocation) in
          if \<not> isValidToolName toolName executions \<or> state toolInvocation \<noteq> Result
          then (Returned part, w)
          else if result toolInvocation = JString (YES APPROVAL) then
            if \<not> isValidToolName toolName executions \<or> state toolInvocation \<noteq> Result
            then (Returned part, w)
            else
              let toolInstance = property executions toolName in
              if truthy toolInstance then
                (case convertToCoreMessages messages of
                   Inl e \<Rightarrow>
                     let (p, w') = forwardResult toolInvocation (caught e) w
                     in (Returned p, w')
                 | Inr coreMessages \<Rightarrow>
                     (case toolInstance of
                        Function f \<Rightarrow>
                          let opts = ToolExecutionOptions coreMessages
                                       (toolCallId (call toolInvocation))
                          in (Awaiting toolInvocation (f (args (call toolInvocation)) opts),
                              w\<lparr>calls := calls w @
                                   [\<lparr>tool = toolName,
                                     arguments = args (call toolInvocation),
                                     options = opts\<rparr>]\<rparr>)
                      | _ \<Rightarrow>
                          let (p, w') = forwardResult toolInvocation
                                (caught (ErrorObject ''TypeError''
                                           ''toolInstance is not a function'')) w
                          in (Returned p, w')))
              else
                let (p, w') = forwardResult toolInvocation
                      (JString ''Error: No execute function found on tool'') w
                in (Returned p, w')
          else if result toolInvocation = JString (NO APPROVAL) then
            let (p, w') = forwardResult toolInvocation
                  (JString ''Error: User denied access to tool execution'') w
            in (Returned p, w')
          else (Returned part, w)
      | _ \<Rightarrow> (Returned part, w))"

text \<open>
  Lines 252-300, after the awaited promise has settled: the fulfilment value, or the
  error string of the \<open>catch\<close> block, is forwarded.
\<close>

definition resumePart ::
  "tool_invocation \<Rightarrow> settlement \<Rightarrow> world \<Rightarrow> part \<times> world" where
  "resumePart toolInvocation s w =
     forwardResult toolInvocation
       (case s of Fulfilled r \<Rightarrow> r | Rejected e \<Rightarrow> caught e) w"

subsection \<open>\<open>Promise.all(parts.map(...))\<close>\<close>

text \<open>
  \<open>parts.map\<close> starts the callbacks one after the other, in the order of the parts.
\<close>

fun startAll ::
  "approval \<Rightarrow> executions \<Rightarrow> (message list \<Rightarrow> thrown + jsvalue) \<Rightarrow> message list \<Rightarrow>
   part list \<Rightarrow> world \<Rightarrow> progress list \<times> world" where
  "startAll APPROVAL executions conv messages [] w = ([], w)"
| "startAll APPROVAL executions conv messages (p # ps) w =
     (let (x, w1) = processPart APPROVAL executions conv messages p w;
          (xs, w2) = startAll APPROVAL executions conv messages ps w1
      in (x # xs, w2))"

text \<open>
  The suspended callbacks resume as their promises settle. The order is not fixed by the
  program: \<open>settle i\<close> is the time at which the promise awaited by the callback of part
  \<open>i\<close> settles, and the callbacks resume by increasing time (by index among equal times).
  \<open>Promise.all\<close> stores every callback's return value at the callback's own index.
\<close>

fun isAwaiting :: "progress \<Rightarrow> bool" where
  "isAwaiting (Awaiting _ _) = True"
| "isAwaiting (Returned _) = False"

definition settleOrder :: "(nat \<Rightarrow> nat) \<Rightarrow> progress list \<Rightarrow> nat list" where
  "settleOrder settle slots =
     sort_key settle (filter (\<lambda>i. isAwaiting (slots ! i)) [0..<length slots])"

definition settleOne ::
  "nat \<Rightarrow> progress list \<times> world \<Rightarrow> progress list \<times> world" where
  "settleOne i sw =
     (case sw of (slots, w) \<Rightarrow>
        if i < length slots then
          (case slots ! i of
             Awaiting toolInvocation s \<Rightarrow>
               let (p, w') = resumePart toolInvocation s w
               in (slots[i := Returned p], w')
           | Returned _ \<Rightarrow> (slots, w))
        else (slots, w))"

definition settleAll ::
  "(nat \<Rightarrow> nat) \<Rightarrow> progress list \<Rightarrow> world \<Rightarrow> progress list \<times> world" where
  "settleAll settle slots w = fold settleOne (settleOrder settle slots) (slots, w)"

text \<open>
  \<open>Promise.all\<close> is fulfilled with the list of return values once every callback has
  returned; while one is still suspended it is not (\<open>None\<close>).
\<close>

fun allReturned :: "progress list \<Rightarrow> part list option" where
  "allReturned [] = Some []"
| "allReturned (Returned p # xs) = map_option ((#) p) (allReturned xs)"
| "allReturned (Awaiting _ _ # xs) = None"

subsection \<open>\<open>processToolCalls\<close>\<close>

text \<open>
  The result is \<open>None\<close> when the function does not return, \<open>Some (Inl e)\<close> when it
  raises \<open>e\<close> (its promise is rejected), \<open>Some (Inr (ms, w))\<close> when it returns the
  messages \<open>ms\<close> and leaves the effects \<open>w\<close>. \<open>messages[messages.length - 1]\<close> of an
  empty array is \<open>undefined\<close>, and reading \<open>.parts\<close> of it raises a \<open>TypeError\<close>.
  The \<open>tools\<close> argument and the two debug helpers only feed \<open>console.log\<close> and are left
  out.
\<close>

definition processToolCalls ::
  "approval \<Rightarrow> executions \<Rightarrow> (message list \<Rightarrow> thrown + jsvalue) \<Rightarrow> (nat \<Rightarrow> nat) \<Rightarrow>
   message list \<Rightarrow> world \<Rightarrow> (js_error + message list \<times> world) option" where
  "processToolCalls APPROVAL executions convertToCoreMessages settle messages w =
     (if messages = [] then Some (Inl TypeError)
      else
        let lastMessage = last messages in
        (case parts lastMessage of
           None \<Rightarrow> Some (Inr (messages, w))
         | Some ps \<Rightarrow>
             let (slots, w1) = startAll APPROVAL executions convertToCoreMessages messages ps w;
                 (slots', w2) = settleAll settle slots w1
             in (case allReturned slots' of
                   None \<Rightarrow> None
                 | Some processedParts \<Rightarrow>
                     Some (Inr (butlast messages @
                                  [lastMessage\<lparr>parts := Some processedParts\<rparr>], w2)))))"

subsection \<open>One part on its own\<close>

text \<open>
  What the callback does for one part when it is looked at alone, from a world with no
  effects yet: where it stands after its synchronous prefix (\<open>started\<close>), the resolver
  calls it makes (\<open>invocations\<close>), the part it finally returns (\<open>reconciled\<close>) and the
  stream parts it writes, before and after its \<open>await\<close> (\<open>published\<close>). They are read off
  \<open>processPart\<close> and \<open>resumePart\<close>.
\<close>

definition idle :: world where
  "idle = \<lparr>calls = [], dataStream = []\<rparr>"

definition after :: "world \<Rightarrow> world \<Rightarrow> world" where
  "after w d = \<lparr>calls = calls w @ calls d, dataStream = dataStream w @ dataStream d\<rparr>"

fun finish :: "progress \<Rightarrow> part" where
  "finish (Returned p) = p"
| "finish (Awaiting toolInvocation s) = fst (resumePart toolInvocation s idle)"

fun late :: "progress \<Rightarrow> stream_part list" where
  "late (Returned p) = []"
| "late (Awaiting toolInvocation s) = dataStream (snd (resumePart toolInvocation s idle))"

definition started ::
  "approval \<Rightarrow> executions \<Rightarrow> (message list \<Rightarrow> thrown + jsvalue) \<Rightarrow> message list \<Rightarrow>
   part \<Rightarrow> progress" where
  "started APPROVAL executions conv messages p =
     fst (processPart APPROVAL executions conv messages p idle)"

definition invocations ::
  "approval \<Rightarrow> executions \<Rightarrow> (message list \<Rightarrow> thrown + jsvalue) \<Rightarrow> message list \<Rightarrow>
   part \<Rightarrow> resolver_call list" where
  "invocations APPROVAL executions conv messages p =
     calls (snd (processPart APPROVAL executions conv messages p idle))"

definition early ::
  "approval \<Rightarrow> executions \<Rightarrow> (message list \<Rightarrow> thrown + jsvalue) \<Rightarrow> message list \<Rightarrow>
   part \<Rightarrow> stream_part list" where
  "early APPROVAL executions conv messages p =
     dataStream (snd (processPart APPROVAL executions conv messages p idle))"

definition reconciled ::
  "approval \<Rightarrow> executions \<Rightarrow> (message list \<Rightarrow> thrown + jsvalue) \<Rightarrow> message list \<Rightarrow>
   part \<Rightarrow> part" where
  "reconciled APPROVAL executions conv messages p =
     finish (started APPROVAL executions conv messages p)"

definition published ::
  "approval \<Rightarrow> executions \<Rightarrow> (message list \<Rightarrow> thrown + jsvalue) \<Rightarrow> message list \<Rightarrow>
   part \<Rightarrow> stream_part list" where
  "published APPROVAL executions conv messages p =
     early APPROVAL executions conv messages p @
     late (started APPROVAL executions conv messages p)"

text \<open>
  The path condition of lines 282-300: the callback reaches them for a tool invocation
  that passed the check of line 218 and whose result is one of the two sentinels.
\<close>

definition forwards :: "approval \<Rightarrow> executions \<Rightarrow> part \<Rightarrow> bool" where
  "forwards APPROVAL executions p =
     (case p of
        ToolInvocationUIPart toolInvocation \<Rightarrow>
          isValidToolName (toolName (call toolInvocation)) executions \<and>
          state toolInvocation = Result \<and>
          (result toolInvocation = JString (YES APPROVAL) \<or>
           result toolInvocation = JString (NO APPROVAL))
      | _ \<Rightarrow> False)"

text \<open>
  The stream parts of a whole pass, in the order they are written: those of the
  synchronous prefixes in the order of the parts, then those of the resumed callbacks in
  the order their promises settle.
\<close>

definition streamed ::
  "approval \<Rightarrow> executions \<Rightarrow> (message list \<Rightarrow> thrown + jsvalue) \<Rightarrow> (nat \<Rightarrow> nat) \<Rightarrow>
   message list \<Rightarrow> part list \<Rightarrow> stream_part list" where
  "streamed APPROVAL executions conv settle messages ps =
     (let slots = map (started APPROVAL executions conv messages) ps
      in concat (map (early APPROVAL executions conv messages) ps) @
         concat (map (\<lambda>i. late (slots ! i)) (settleOrder settle slots)))"

subsection \<open>Sample transcripts\<close>

text \<open>
  The objects of the end-to-end scenario. \<open>sampleExecutions\<close> has a weather resolver, a
  resolver that raises, and a key that carries no function; of the properties an object
  literal inherits from \<open>Object.prototype\<close> it lists \<open>toString\<close> and \<open>constructor\<close>
  (called as plain functions: \<open>toString\<close> gives \<open>[object Undefined]\<close>, \<open>constructor\<close> gives
  back an argument that is an object).
\<close>

definition sampleApproval :: approval where
  "sampleApproval = \<lparr>YES = ''APPROVAL_YES'', NO = ''APPROVAL_NO''\<rparr>"

definition sampleCall :: "string \<Rightarrow> string \<Rightarrow> tool_call" where
  "sampleCall i n =
     \<lparr>step = None, toolCallId = i, toolName = n,
      args = JObject [(''city'', JString ''Lima'')]\<rparr>"

definition sampleWeather :: resolver where
  "sampleWeather a opts = Fulfilled (JString ''The weather in Lima is sunny'')"

definition sampleWebhook :: resolver where
  "sampleWebhook a opts = Rejected (ErrorObject ''Error'' ''No agent found'')"

definition sampleExecutions :: executions where
  "sampleExecutions =
     \<lparr>own =
        (\<lambda>n. None)
          (''getWeatherInformation'' := Some (Function sampleWeather),
           ''sendWebhook'' := Some (Function sampleWebhook),
           ''callDoWorker'' := Some NoFunction),
      inherited =
        (\<lambda>n. None)
          (''toString'' := Some (Function (\<lambda>a opts. Fulfilled (JString ''[object Undefined]''))),
           ''constructor'' :=
             Some (Function (\<lambda>a opts.
               Fulfilled (case a of JUndefined \<Rightarrow> JObject [] | JNull \<Rightarrow> JObject [] | _ \<Rightarrow> a))))\<rparr>"

text \<open>
  A last message in which every confirmation has been answered: a text part, an approved
  and a denied weather call, an approved call whose resolver raises, an approved call whose
  key of \<open>executions\<close> carries no function, and the result of a tool that is not in
  \<open>executions\<close>.
\<close>

definition sampleParts :: "part list" where
  "sampleParts =
     [TextUIPart ''Let me check.'',
      ToolInvocationUIPart
        (ToolInvocationResult (sampleCall ''c1'' ''getWeatherInformation'')
           (JString ''APPROVAL_YES'')),
      ToolInvocationUIPart
        (ToolInvocationResult (sampleCall ''c2'' ''getWeatherInformation'')
           (JString ''APPROVAL_NO'')),
      ToolInvocationUIPart
        (ToolInvocationResult (sampleCall ''c3'' ''sendWebhook'') (JString ''APPROVAL_YES'')),
      ToolInvocationUIPart
        (ToolInvocationResult (sampleCall ''c4'' ''callDoWorker'') (JString ''APPROVAL_YES'')),
      ToolInvocationUIPart
        (ToolInvocationResult (sampleCall ''c5'' ''getLocalTime'') (JString ''10:00''))]"

definition sampleUser :: message where
  "sampleUser =
     \<lparr>id' = ''m1'', createdAt = Some 1, content = ''what is the weather in Lima?'',
      role = User, parts = None\<rparr>"

definition sampleAssistant :: "part list \<Rightarrow> message" where
  "sampleAssistant ps =
     \<lparr>id' = ''m2'', createdAt = Some 2, content = [], role = Assistant, parts = Some ps\<rparr>"

definition sampleMessages :: "message list" where
  "sampleMessages = [sampleUser, sampleAssistant sampleParts]"



text \<open>
  A denied call that names \<open>toString\<close>, which is not a key of \<open>executions\<close> but a
  property it inherits.
\<close>

definition inheritedParts :: "part list" where
  "inheritedParts =
     [ToolInvocationUIPart
        (ToolInvocationResult (sampleCall ''c7'' ''toString'') (JString ''APPROVAL_NO''))]"

definition sampleInherited :: "message list" where
  "sampleInherited = [sampleUser, sampleAssistant inheritedParts]"

text \<open>
  A transcript whose last message holds no sentinel any more: the weather call carries its
  answer, the last call is still unanswered.
\<close>

definition sampleAnswered :: "message list" where
  "sampleAnswered =
     [sampleUser,
      sampleAssistant
        [TextUIPart ''Let me check.'',
         ToolInvocationUIPart
           (ToolInvocationResult (sampleCall ''c1'' ''getWeatherInformation'')
              (JString ''The weather in Lima is sunny'')),
         ToolInvocationUIPart
           (ToolInvocationCall (sampleCall ''c6'' ''getWeatherInformation''))]]"

text \<open>
  A conversion that, as the library's does, refuses a transcript in which a tool invocation
  has no result (its message is shortened here), and otherwise returns data.
\<close>

definition unanswered :: "part \<Rightarrow> bool" where
  "unanswered p =
     (case p of ToolInvocationUIPart ti \<Rightarrow> state ti \<noteq> Result | _ \<Rightarrow> False)"

definition sampleConvert :: "message list \<Rightarrow> thrown + jsvalue" where
  "sampleConvert ms =
     (if list_ex (\<lambda>m. case parts m of None \<Rightarrow> False | Some ps \<Rightarrow> list_ex unanswered ps) ms
      then Inl (ErrorObject ''AI_MessageConversionError'' ''ToolInvocation must have a result'')
      else Inr (JArray (map (\<lambda>m. JString (content m)) ms)))"

text \<open>A schedule on which the promises of later parts settle first.\<close>

definition sampleSettle :: "nat \<Rightarrow> nat" where
  "sampleSettle i = 10 - i"

text \<open>
  What a pass returned, if it returned: the part at position \<open>i\<close> of the last message,
  the resolver calls made, the parts written to the stream.
\<close>

definition returnedPart ::
  "(js_error + message list \<times> world) option \<Rightarrow> nat \<Rightarrow> part option" where
  "returnedPart r i =
     (case r of
        Some (Inr (out, w)) \<Rightarrow>
          (if out = [] then None
           else (case parts (last out) of
                   Some qs \<Rightarrow> if i < length qs then Some (qs ! i) else None
                 | None \<Rightarrow> None))
      | _ \<Rightarrow> None)"


definition returnedStream ::
  "(js_error + message list \<times> world) option \<Rightarrow> stream_part list option" where
  "returnedStream r = (case r of Some (Inr (out, w)) \<Rightarrow> Some (dataStream w) | _ \<Rightarrow> None)"

section \<open>Effects accumulate\<close>

lemma after_idle: "after w idle = w"
  by (simp add: after_def idle_def)

lemma after_assoc: "after (after w a) b = after w (after a b)"
  by (simp add: after_def)

lemma calls_after: "calls (after w d) = calls w @ calls d"
  by (simp add: after_def)

lemma dataStream_after: "dataStream (after w d) = dataStream w @ dataStream d"
  by (simp add: after_def)

lemma processPart_after:
  "processPart A ex conv ms p w =
     (started A ex conv ms p,
      after w \<lparr>calls = invocations A ex conv ms p, dataStream = early A ex conv ms p\<rparr>)"
  by (cases p)
     (auto simp: started_def invocations_def early_def processPart_def forwardResult_def
                 after_def idle_def Let_def split: sum.splits entry.splits)

lemma startAll_after:
  "startAll A ex conv ms ps w =
     (map (started A ex conv ms) ps,
      after w \<lparr>calls = concat (map (invocations A ex conv ms) ps),
               dataStream = concat (map (early A ex conv ms) ps)\<rparr>)"
proof (induction ps arbitrary: w)
  case Nil
  show ?case by (simp add: after_def)
next
  case (Cons p ps)
  show ?case
    by (simp add: processPart_after [of A ex conv ms p w] Cons.IH after_def)
qed

lemma resumePart_after:
  "resumePart ti s w =
     (finish (Awaiting ti s), after w \<lparr>calls = [], dataStream = late (Awaiting ti s)\<rparr>)"
  by (simp add: resumePart_def forwardResult_def after_def idle_def)

lemma settleOne_after:
  assumes "i < length slots"
  shows "settleOne i (slots, w) =
           (slots[i := Returned (finish (slots ! i))],
            after w \<lparr>calls = [], dataStream = late (slots ! i)\<rparr>)"
proof (cases "slots ! i")
  case (Returned p)
  then have "slots[i := Returned (finish (slots ! i))] = slots"
    by (metis finish.simps(1) list_update_id)
  with Returned assms show ?thesis
    by (simp add: settleOne_def after_def)
next
  case (Awaiting ti s)
  with assms show ?thesis
    by (simp add: settleOne_def resumePart_after del: finish.simps late.simps)
qed

lemma fold_settleOne:
  "distinct is \<Longrightarrow> \<forall>i\<in>set is. i < length slots \<Longrightarrow>
   fold settleOne is (slots, w) =
     (map (\<lambda>i. if i \<in> set is then Returned (finish (slots ! i)) else slots ! i)
        [0..<length slots],
      after w \<lparr>calls = [], dataStream = concat (map (\<lambda>i. late (slots ! i)) is)\<rparr>)"
proof (induction "is" arbitrary: slots w)
  case Nil
  show ?case by (simp add: map_nth after_def)
next
  case (Cons i "is")
  let ?slots1 = "slots[i := Returned (finish (slots ! i))]"
  let ?w1 = "after w \<lparr>calls = [], dataStream = late (slots ! i)\<rparr>"
  have i: "i < length slots" and ni: "i \<notin> set is" and d: "distinct is"
    and b: "\<forall>j\<in>set is. j < length ?slots1"
    using Cons.prems by auto
  have same: "\<And>j. j \<in> set is \<Longrightarrow> ?slots1 ! j = slots ! j"
    using ni by (metis nth_list_update_neq)
  have l: "map (\<lambda>j. late (?slots1 ! j)) is = map (\<lambda>j. late (slots ! j)) is"
    using same by simp
  have m: "map (\<lambda>j. if j \<in> set is then Returned (finish (?slots1 ! j)) else ?slots1 ! j)
             [0..<length ?slots1]
         = map (\<lambda>j. if j \<in> set (i # is) then Returned (finish (slots ! j)) else slots ! j)
             [0..<length slots]"
    using i same by (auto simp: nth_list_update)
  have "fold settleOne (i # is) (slots, w) = fold settleOne is (?slots1, ?w1)"
    by (simp add: settleOne_after [OF i])
  also have "\<dots> =
      (map (\<lambda>j. if j \<in> set is then Returned (finish (?slots1 ! j)) else ?slots1 ! j)
         [0..<length ?slots1],
       after ?w1 \<lparr>calls = [], dataStream = concat (map (\<lambda>j. late (?slots1 ! j)) is)\<rparr>)"
    by (rule Cons.IH [OF d b])
  also have "\<dots> =
      (map (\<lambda>j. if j \<in> set (i # is) then Returned (finish (slots ! j)) else slots ! j)
         [0..<length slots],
       after w \<lparr>calls = [], dataStream = concat (map (\<lambda>j. late (slots ! j)) (i # is))\<rparr>)"
    unfolding m l by (simp add: after_def)
  finally show ?case .
qed

lemma finish_not_awaiting: "\<not> isAwaiting x \<Longrightarrow> Returned (finish x) = x"
  by (cases x) simp_all

lemma settleAll_after:
  "settleAll settle slots w =
     (map (\<lambda>x. Returned (finish x)) slots,
      after w \<lparr>calls = [],
               dataStream = concat (map (\<lambda>i. late (slots ! i)) (settleOrder settle slots))\<rparr>)"
proof -
  have d: "distinct (settleOrder settle slots)"
    by (simp add: settleOrder_def)
  have b: "\<forall>i\<in>set (settleOrder settle slots). i < length slots"
    by (simp add: settleOrder_def)
  have "map (\<lambda>i. if i \<in> set (settleOrder settle slots)
                  then Returned (finish (slots ! i)) else slots ! i) [0..<length slots]
        = map (\<lambda>i. Returned (finish (slots ! i))) [0..<length slots]"
    by (auto simp: settleOrder_def finish_not_awaiting)
  also have "\<dots> = map (\<lambda>x. Returned (finish x)) (map ((!) slots) [0..<length slots])"
    by simp
  also have "\<dots> = map (\<lambda>x. Returned (finish x)) slots"
    by (simp only: map_nth)
  finally show ?thesis
    unfolding settleAll_def fold_settleOne [OF d b] by simp
qed

lemma allReturned_map: "allReturned (map (\<lambda>x. Returned (f x)) xs) = Some (map f xs)"
  by (induction xs) simp_all

lemma processToolCalls_run:
  assumes ne: "messages \<noteq> []" and ps: "parts (last messages) = Some ps"
  shows "processToolCalls A ex conv settle messages w =
           Some (Inr (butlast messages @
                        [(last messages)\<lparr>parts := Some (map (reconciled A ex conv messages) ps)\<rparr>],
                      after w \<lparr>calls = concat (map (invocations A ex conv messages) ps),
                               dataStream = streamed A ex conv settle messages ps\<rparr>))"
proof -
  let ?slots = "map (started A ex conv messages) ps"
  let ?w1 = "after w \<lparr>calls = concat (map (invocations A ex conv messages) ps),
                         dataStream = concat (map (early A ex conv messages) ps)\<rparr>"
  let ?w2 = "after ?w1 \<lparr>calls = [],
               dataStream = concat (map (\<lambda>i. late (?slots ! i)) (settleOrder settle ?slots))\<rparr>"
  have s1: "startAll A ex conv messages ps w = (?slots, ?w1)"
    by (rule startAll_after)
  have s2: "settleAll settle ?slots ?w1 = (map (\<lambda>x. Returned (finish x)) ?slots, ?w2)"
    by (rule settleAll_after)
  have s3: "allReturned (map (\<lambda>x. Returned (finish x)) ?slots)
              = Some (map (reconciled A ex conv messages) ps)"
    unfolding allReturned_map by (simp add: reconciled_def)
  have w2: "?w2 = after w \<lparr>calls = concat (map (invocations A ex conv messages) ps),
                               dataStream = streamed A ex conv settle messages ps\<rparr>"
    by (simp add: after_def streamed_def Let_def)
  show ?thesis
    unfolding processToolCalls_def Let_def
    using ne by (simp only: ps s1 s2 s3 w2 if_False option.case prod.case)
qed

lemma late_empty: "\<not> isAwaiting x \<Longrightarrow> late x = []"
  by (cases x) simp_all

lemma concat_map_filter_empty:
  "(\<And>x. x \<in> set xs \<Longrightarrow> \<not> P x \<Longrightarrow> f x = []) \<Longrightarrow>
   concat (map f (filter P xs)) = concat (map f xs)"
  by (induction xs) auto

lemma mset_concat_sort_key:
  "mset (concat (map f (sort_key k xs))) = mset (concat (map f xs))"
proof -
  have "mset (concat (map f ys)) = sum_mset (image_mset (\<lambda>x. mset (f x)) (mset ys))" for ys
    by (induction ys) simp_all
  then show ?thesis by simp
qed

lemma mset_streamed:
  "mset (streamed A ex conv settle messages ps) =
   mset (concat (map (published A ex conv messages) ps))"
proof -
  let ?slots = "map (started A ex conv messages) ps"
  let ?idx = "filter (\<lambda>i. isAwaiting (?slots ! i)) [0..<length ?slots]"
  have "mset (concat (map (\<lambda>i. late (?slots ! i)) (settleOrder settle ?slots)))
        = mset (concat (map (\<lambda>i. late (?slots ! i)) ?idx))"
    unfolding settleOrder_def by (rule mset_concat_sort_key)
  also have "concat (map (\<lambda>i. late (?slots ! i)) ?idx)
        = concat (map (\<lambda>i. late (?slots ! i)) [0..<length ?slots])"
    by (rule concat_map_filter_empty) (simp add: late_empty)
  also have "map (\<lambda>i. late (?slots ! i)) [0..<length ?slots] = map late ?slots"
  proof -
    have "map (\<lambda>i. late (?slots ! i)) [0..<length ?slots]
            = map late (map ((!) ?slots) [0..<length ?slots])"
      by simp
    then show ?thesis by (simp only: map_nth)
  qed
  finally have l: "mset (concat (map (\<lambda>i. late (?slots ! i)) (settleOrder settle ?slots)))
        = mset (concat (map late ?slots))" .
  have "mset (concat (map (published A ex conv messages) ps))
        = mset (concat (map (early A ex conv messages) ps)) + mset (concat (map late ?slots))"
    by (induction ps) (simp_all add: published_def)
  then show ?thesis
    by (simp add: streamed_def Let_def l)
qed

section \<open>The branches of the callback\<close>


lemma own_found: "own ex k = Some v \<Longrightarrow> isValidToolName k ex \<and> property ex k = v"
  by (simp add: property_def isValidToolName_def)

lemma part_passes:
  assumes "case p of
             ToolInvocationUIPart ti \<Rightarrow>
               \<not> isValidToolName (toolName (call ti)) ex \<or> state ti \<noteq> Result \<or>
               (result ti \<noteq> JString (YES A) \<and> result ti \<noteq> JString (NO A))
           | _ \<Rightarrow> True"
  shows "processPart A ex conv ms p w = (Returned p, w)"
  using assms
  by (cases p) (auto simp: processPart_def Let_def)



lemma part_unimplemented:
  assumes "isValidToolName (toolName (call ti)) ex"
    and "property ex (toolName (call ti)) = NoFunction" and "state ti = Result"
    and "result ti = JString (YES A)"
  shows "processPart A ex conv ms (ToolInvocationUIPart ti) w =
           (Returned (ToolInvocationUIPart (ToolInvocationResult (call ti)
                        (JString ''Error: No execute function found on tool''))),
            w\<lparr>dataStream := dataStream w @
                 [ToolResultPart (toolCallId (call ti))
                    (JString ''Error: No execute function found on tool'')]\<rparr>)"
  using assms by (simp add: processPart_def Let_def forwardResult_def)

lemma part_denied:
  assumes "isValidToolName (toolName (call ti)) ex" and "state ti = Result"
    and "result ti = JString (NO A)" and "YES A \<noteq> NO A"
  shows "processPart A ex conv ms (ToolInvocationUIPart ti) w =
           (Returned (ToolInvocationUIPart (ToolInvocationResult (call ti)
                        (JString ''Error: User denied access to tool execution''))),
            w\<lparr>dataStream := dataStream w @
                 [ToolResultPart (toolCallId (call ti))
                    (JString ''Error: User denied access to tool execution'')]\<rparr>)"
  using assms by (auto simp: processPart_def Let_def forwardResult_def)

lemma concat_map_split:
  assumes "i < length xs"
  shows "concat (map f xs) =
           concat (map f (take i xs)) @ f (xs ! i) @ concat (map f (drop (Suc i) xs))"
proof -
  have "concat (map f xs) = concat (map f (take i xs @ xs ! i # drop (Suc i) xs))"
    using assms by (simp only: id_take_nth_drop [symmetric])
  then show ?thesis by simp
qed

section \<open>What one part yields\<close>

lemma passes_alone:
  assumes "case p of
             ToolInvocationUIPart ti \<Rightarrow>
               \<not> isValidToolName (toolName (call ti)) ex \<or> state ti \<noteq> Result \<or>
               (result ti \<noteq> JString (YES A) \<and> result ti \<noteq> JString (NO A))
           | _ \<Rightarrow> True"
  shows "reconciled A ex conv ms p = p" and "invocations A ex conv ms p = []"
    and "published A ex conv ms p = []"
  by (simp_all add: reconciled_def invocations_def published_def started_def early_def
        part_passes [where p=p and ex=ex and A=A, OF assms] idle_def)



lemma unimplemented_alone:
  assumes "isValidToolName (toolName (call ti)) ex"
    and "property ex (toolName (call ti)) = NoFunction" and "state ti = Result"
    and "result ti = JString (YES A)"
    and r_def: "r = JString ''Error: No execute function found on tool''"
  shows "reconciled A ex conv ms (ToolInvocationUIPart ti) =
           ToolInvocationUIPart (ToolInvocationResult (call ti) r)"
    and "invocations A ex conv ms (ToolInvocationUIPart ti) = []"
    and "published A ex conv ms (ToolInvocationUIPart ti) =
           [ToolResultPart (toolCallId (call ti)) r]"
  by (simp_all add: reconciled_def invocations_def published_def started_def early_def
        part_unimplemented [where ex=ex and ti=ti and A=A, OF assms(1-4)] idle_def r_def)

lemma denied_alone:
  assumes "isValidToolName (toolName (call ti)) ex" and "state ti = Result"
    and "result ti = JString (NO A)" and "YES A \<noteq> NO A"
    and r_def: "r = JString ''Error: User denied access to tool execution''"
  shows "reconciled A ex conv ms (ToolInvocationUIPart ti) =
           ToolInvocationUIPart (ToolInvocationResult (call ti) r)"
    and "invocations A ex conv ms (ToolInvocationUIPart ti) = []"
    and "published A ex conv ms (ToolInvocationUIPart ti) =
           [ToolResultPart (toolCallId (call ti)) r]"
  by (simp_all add: reconciled_def invocations_def published_def started_def early_def
        part_denied [where ex=ex and ti=ti and A=A, OF assms(1-4)] idle_def r_def)

section \<open>Parts that are forwarded, parts that are not\<close>

lemma processToolCalls_plain:
  assumes "messages \<noteq> []" and "parts (last messages) = None"
  shows "processToolCalls A ex conv settle messages w = Some (Inr (messages, w))"
  using assms by (simp add: processToolCalls_def)

lemma forwards_alone:
  assumes "forwards A ex p"
  shows "\<exists>ti r. p = ToolInvocationUIPart ti \<and>
           reconciled A ex conv ms p = ToolInvocationUIPart (ToolInvocationResult (call ti) r) \<and>
           published A ex conv ms p = [ToolResultPart (toolCallId (call ti)) r]"
  using assms
  by (cases p)
     (auto simp: forwards_def reconciled_def published_def started_def early_def
                 processPart_def forwardResult_def resumePart_def idle_def Let_def
           split: sum.splits entry.splits)

lemma not_forwards_alone:
  assumes "\<not> forwards A ex p"
  shows "reconciled A ex conv ms p = p" and "invocations A ex conv ms p = []"
    and "published A ex conv ms p = []"
proof -
  have "case p of
          ToolInvocationUIPart ti \<Rightarrow>
            \<not> isValidToolName (toolName (call ti)) ex \<or> state ti \<noteq> Result \<or>
            (result ti \<noteq> JString (YES A) \<and> result ti \<noteq> JString (NO A))
        | _ \<Rightarrow> True"
    using assms by (cases p) (auto simp: forwards_def)
  then show "reconciled A ex conv ms p = p" and "invocations A ex conv ms p = []"
    and "published A ex conv ms p = []"
    by (rule passes_alone)+
qed

lemma streamed_empty:
  assumes "\<forall>p\<in>set ps. published A ex conv messages p = []"
  shows "streamed A ex conv settle messages ps = []"
proof -
  have "concat (map (published A ex conv messages) ps) = []"
    using assms by simp
  then have "mset (streamed A ex conv settle messages ps) = {#}"
    by (simp add: mset_streamed)
  then show ?thesis by simp
qed

lemma unchanged_pass:
  assumes ne: "messages \<noteq> []"
    and q: "case parts (last messages) of
              None \<Rightarrow> True
            | Some ps \<Rightarrow> \<forall>p\<in>set ps. \<not> forwards A ex p"
  shows "processToolCalls A ex conv settle messages w = Some (Inr (messages, w))"
proof (cases "parts (last messages)")
  case None
  with ne show ?thesis by (rule processToolCalls_plain)
next
  case (Some ps)
  with q have nf: "\<forall>p\<in>set ps. \<not> forwards A ex p" by simp
  have r: "map (reconciled A ex conv messages) ps = ps"
    using nf by (simp add: not_forwards_alone map_idI)
  have c: "concat (map (invocations A ex conv messages) ps) = []"
    using nf by (simp add: not_forwards_alone)
  have d: "streamed A ex conv settle messages ps = []"
    using nf by (intro streamed_empty) (simp add: not_forwards_alone)
  have "(last messages)\<lparr>parts := Some ps\<rparr> = last messages"
    by (simp add: Some [symmetric])
  then have m: "butlast messages @ [(last messages)\<lparr>parts := Some ps\<rparr>] = messages"
    using ne by simp
  have w: "after w \<lparr>calls = [], dataStream = []\<rparr> = w"
    by (simp add: after_def)
  show ?thesis
    unfolding processToolCalls_run [OF ne Some] r c d m w ..
qed

text \<open>
  A part that is not a tool invocation, or whose state is not \<open>result\<close>, or whose tool
  name is not found in \<open>executions\<close> (neither a key nor inherited), is returned as it
  was, whatever the other parts are.
\<close>

lemma not_found_passes_through:
  assumes ne: "messages \<noteq> []" and ps: "parts (last messages) = Some ps"
    and i: "i < length ps"
    and u: "case ps ! i of
              ToolInvocationUIPart ti \<Rightarrow>
                \<not> isValidToolName (toolName (call ti)) ex \<or> state ti \<noteq> Result
            | _ \<Rightarrow> True"
  shows "\<exists>out w' qs.
           processToolCalls A ex conv settle messages w = Some (Inr (out, w')) \<and>
           parts (last out) = Some qs \<and> length qs = length ps \<and> qs ! i = ps ! i"
proof -
  have "\<not> forwards A ex (ps ! i)"
    using u by (cases "ps ! i") (auto simp: forwards_def)
  then have "reconciled A ex conv messages (ps ! i) = ps ! i"
    by (rule not_forwards_alone)
  then show ?thesis
    unfolding processToolCalls_run [OF ne ps] using i by simp
qed

section \<open>The sample transcripts\<close>

lemma sample_nonempty: "sampleMessages \<noteq> []"
  by (simp add: sampleMessages_def)

lemma sample_parts: "parts (last sampleMessages) = Some sampleParts"
  by (simp add: sampleMessages_def sampleAssistant_def)





lemma sample_published:
  "concat (map (published sampleApproval sampleExecutions sampleConvert sampleMessages)
     sampleParts) =
   [ToolResultPart ''c1'' (JString ''The weather in Lima is sunny''),
    ToolResultPart ''c2'' (JString ''Error: User denied access to tool execution''),
    ToolResultPart ''c3'' (JString ''Error executing tool: Error: No agent found''),
    ToolResultPart ''c4'' (JString ''Error: No execute function found on tool'')]"
  by code_simp

section \<open>The claims\<close>




text \<open>
  C2. A tool-invocation part of the last message whose recorded result is the deny
  sentinel and whose tool name is found in \<open>executions\<close> (every key of the map is; the two
  sentinels being different strings): no resolver call is made for that part (the call log
  holds the calls made for the parts before it and for the parts after it, and nothing
  else), and the part's new result is the fixed denial message.
\<close>

theorem denial_short_circuit:
  assumes ne: "messages \<noteq> []" and ps: "parts (last messages) = Some ps"
    and i: "i < length ps"
    and p: "ps ! i = ToolInvocationUIPart (ToolInvocationResult c (JString (NO A)))"
    and k: "isValidToolName (toolName c) ex"
    and d: "YES A \<noteq> NO A"
  shows "\<exists>out w' qs.
           processToolCalls A ex conv settle messages w = Some (Inr (out, w')) \<and>
           calls w' =
             calls w @ concat (map (invocations A ex conv messages) (take i ps)) @
             concat (map (invocations A ex conv messages) (drop (Suc i) ps)) \<and>
           parts (last out) = Some qs \<and> length qs = length ps \<and>
           qs ! i =
             ToolInvocationUIPart (ToolInvocationResult c
               (JString ''Error: User denied access to tool execution''))"
proof -
  let ?ti = "ToolInvocationResult c (JString (NO A))"
  have a: "isValidToolName (toolName (call ?ti)) ex" "state ?ti = Result"
    "result ?ti = JString (NO A)"
    using k by simp_all
  note alone = denied_alone [where ex=ex and ti="?ti" and A=A and conv=conv
      and ms=messages, OF a d refl]
  have inv: "invocations A ex conv messages (ps ! i) = []"
    using alone(2) by (simp add: p)
  have rec: "map (reconciled A ex conv messages) ps ! i =
               ToolInvocationUIPart (ToolInvocationResult c
                 (JString ''Error: User denied access to tool execution''))"
    using alone(1) i by (simp add: p)
  show ?thesis
    unfolding processToolCalls_run [OF ne ps]
    using rec
    by (simp add: after_def concat_map_split [OF i, of "invocations A ex conv messages"] inv)
qed

theorem denial_short_circuit_witness:
  "\<exists>out w' qs.
     processToolCalls sampleApproval sampleExecutions sampleConvert sampleSettle
       sampleMessages idle = Some (Inr (out, w')) \<and>
     parts (last out) = Some qs \<and>
     qs ! 2 = ToolInvocationUIPart (ToolInvocationResult
                (sampleCall ''c2'' ''getWeatherInformation'')
                (JString ''Error: User denied access to tool execution''))"
proof -
  have 2: "(2::nat) < length sampleParts"
    by (simp add: sampleParts_def)
  have p2: "sampleParts ! 2 = ToolInvocationUIPart (ToolInvocationResult
              (sampleCall ''c2'' ''getWeatherInformation'') (JString (NO sampleApproval)))"
    by (simp add: sampleParts_def sampleApproval_def)
  have k: "isValidToolName (toolName (sampleCall ''c2'' ''getWeatherInformation''))
             sampleExecutions"
    by (simp add: isValidToolName_def sampleExecutions_def sampleCall_def)
  have d: "YES sampleApproval \<noteq> NO sampleApproval"
    by (simp add: sampleApproval_def)
  show ?thesis
    using denial_short_circuit [where ex=sampleExecutions and conv=sampleConvert
            and settle=sampleSettle and w=idle,
            OF sample_nonempty sample_parts 2 p2 k d]
    by auto
qed

text \<open>
  C3, as stated: an approved part in state \<open>result\<close> whose entry of \<open>executions\<close> carries
  no function is passed through unchanged. It is not: in the sample transcript the part at
  position 4 names \<open>callDoWorker\<close>, a key of \<open>executions\<close> without a function, and the pass
  returns it with the result \<open>Error: No execute function found on tool\<close>.
\<close>

theorem no_function_passes_through_counterexample:
  "own sampleExecutions (toolName (sampleCall ''c4'' ''callDoWorker'')) = Some NoFunction \<and>
   sampleParts ! 4 =
     ToolInvocationUIPart (ToolInvocationResult (sampleCall ''c4'' ''callDoWorker'')
       (JString (YES sampleApproval))) \<and>
   returnedPart (processToolCalls sampleApproval sampleExecutions sampleConvert sampleSettle
                   sampleMessages idle) 4 =
     Some (ToolInvocationUIPart (ToolInvocationResult (sampleCall ''c4'' ''callDoWorker'')
             (JString ''Error: No execute function found on tool''))) \<and>
   returnedPart (processToolCalls sampleApproval sampleExecutions sampleConvert sampleSettle
                   sampleMessages idle) 4 \<noteq> Some (sampleParts ! 4)"
proof (intro conjI)
  show "own sampleExecutions (toolName (sampleCall ''c4'' ''callDoWorker'')) = Some NoFunction"
    by (simp add: sampleExecutions_def sampleCall_def)
  show "sampleParts ! 4 =
     ToolInvocationUIPart (ToolInvocationResult (sampleCall ''c4'' ''callDoWorker'')
       (JString (YES sampleApproval)))"
    by code_simp
  show "returnedPart (processToolCalls sampleApproval sampleExecutions sampleConvert sampleSettle
                   sampleMessages idle) 4 =
     Some (ToolInvocationUIPart (ToolInvocationResult (sampleCall ''c4'' ''callDoWorker'')
             (JString ''Error: No execute function found on tool'')))"
    by code_simp
  show "returnedPart (processToolCalls sampleApproval sampleExecutions sampleConvert sampleSettle
                   sampleMessages idle) 4 \<noteq> Some (sampleParts ! 4)"
    by code_simp
qed

text \<open>
  C3, amended. An approved part in state \<open>result\<close> for whose tool name \<open>executions\<close>
  carries no function (\<open>executions[toolName]\<close> is \<open>undefined\<close> or another falsy value).
  When the name is not found in \<open>executions\<close>, the part is passed through unchanged and
  nothing is written for it. When the name is found (a key whose entry carries no
  function), the part's new result is the string
  \<open>Error: No execute function found on tool\<close>, and exactly one stream part with that result
  is written for it. In neither case is a resolver called for the part. The parts written
  during the pass are those of the other parts and this one.
\<close>

theorem approved_without_function:
  assumes ne: "messages \<noteq> []" and ps: "parts (last messages) = Some ps"
    and i: "i < length ps"
    and p: "ps ! i = ToolInvocationUIPart (ToolInvocationResult c (JString (YES A)))"
    and nf: "property ex (toolName c) = NoFunction"
  shows "\<exists>out w' qs evs.
           processToolCalls A ex conv settle messages w = Some (Inr (out, w')) \<and>
           parts (last out) = Some qs \<and> length qs = length ps \<and>
           qs ! i =
             (if isValidToolName (toolName c) ex
              then ToolInvocationUIPart (ToolInvocationResult c
                     (JString ''Error: No execute function found on tool''))
              else ps ! i) \<and>
           calls w' =
             calls w @ concat (map (invocations A ex conv messages) (take i ps)) @
             concat (map (invocations A ex conv messages) (drop (Suc i) ps)) \<and>
           dataStream w' = dataStream w @ evs \<and>
           mset evs =
             mset (concat (map (published A ex conv messages) (take i ps))) +
             mset (if isValidToolName (toolName c) ex
                   then [ToolResultPart (toolCallId c)
                           (JString ''Error: No execute function found on tool'')]
                   else []) +
             mset (concat (map (published A ex conv messages) (drop (Suc i) ps)))"
proof -
  let ?ti = "ToolInvocationResult c (JString (YES A))"
  let ?e = "JString ''Error: No execute function found on tool''"
  have one: "reconciled A ex conv messages (ps ! i) =
               (if isValidToolName (toolName c) ex
                then ToolInvocationUIPart (ToolInvocationResult c ?e) else ps ! i) \<and>
             invocations A ex conv messages (ps ! i) = [] \<and>
             published A ex conv messages (ps ! i) =
               (if isValidToolName (toolName c) ex
                then [ToolResultPart (toolCallId c) ?e] else [])"
  proof (cases "isValidToolName (toolName c) ex")
    case True
    have a: "isValidToolName (toolName (call ?ti)) ex"
      "property ex (toolName (call ?ti)) = NoFunction" "state ?ti = Result"
      "result ?ti = JString (YES A)"
      using True nf by simp_all
    show ?thesis
      using unimplemented_alone [where ex=ex and ti="?ti" and A=A and conv=conv
              and ms=messages, OF a refl] True
      by (simp add: p)
  next
    case False
    then have "\<not> forwards A ex (ps ! i)"
      by (simp add: p forwards_def)
    with False show ?thesis
      by (simp add: not_forwards_alone)
  qed
  have m: "mset (concat (map (published A ex conv messages) ps)) =
             mset (concat (map (published A ex conv messages) (take i ps))) +
             mset (published A ex conv messages (ps ! i)) +
             mset (concat (map (published A ex conv messages) (drop (Suc i) ps)))"
    by (simp add: concat_map_split [OF i, of "published A ex conv messages"])
  have rec: "map (reconciled A ex conv messages) ps ! i =
               (if isValidToolName (toolName c) ex
                then ToolInvocationUIPart (ToolInvocationResult c ?e) else ps ! i)"
    using one i by simp
  show ?thesis
    unfolding processToolCalls_run [OF ne ps]
    using rec one m mset_streamed [of A ex conv settle messages ps]
    by (simp add: after_def concat_map_split [OF i, of "invocations A ex conv messages"])
qed

theorem approved_without_function_witness:
  "\<exists>out w' qs.
     processToolCalls sampleApproval sampleExecutions sampleConvert sampleSettle
       sampleMessages idle = Some (Inr (out, w')) \<and>
     parts (last out) = Some qs \<and>
     qs ! 4 =
       ToolInvocationUIPart (ToolInvocationResult (sampleCall ''c4'' ''callDoWorker'')
         (JString ''Error: No execute function found on tool'')) \<and>
     ToolResultPart ''c4'' (JString ''Error: No execute function found on tool'')
       \<in> set (dataStream w')"
proof -
  have 4: "(4::nat) < length sampleParts"
    by (simp add: sampleParts_def)
  have p4: "sampleParts ! 4 = ToolInvocationUIPart (ToolInvocationResult
              (sampleCall ''c4'' ''callDoWorker'') (JString (YES sampleApproval)))"
    by (simp add: sampleParts_def sampleApproval_def)
  have nf: "property sampleExecutions (toolName (sampleCall ''c4'' ''callDoWorker'')) =
              NoFunction"
    by (simp add: property_def sampleExecutions_def sampleCall_def)
  have k: "isValidToolName (toolName (sampleCall ''c4'' ''callDoWorker'')) sampleExecutions"
    by (simp add: isValidToolName_def sampleExecutions_def sampleCall_def)
  have c: "toolCallId (sampleCall ''c4'' ''callDoWorker'') = ''c4''"
    by (simp add: sampleCall_def)
  from approved_without_function [where ex=sampleExecutions and conv=sampleConvert
         and settle=sampleSettle and w=idle,
         OF sample_nonempty sample_parts 4 p4 nf]
  obtain out w' qs evs where
    run: "processToolCalls sampleApproval sampleExecutions sampleConvert sampleSettle
            sampleMessages idle = Some (Inr (out, w'))"
    and qs: "parts (last out) = Some qs"
      "qs ! 4 = ToolInvocationUIPart (ToolInvocationResult (sampleCall ''c4'' ''callDoWorker'')
                  (JString ''Error: No execute function found on tool''))"
    and ds: "dataStream w' = dataStream idle @ evs"
    and me: "mset evs =
               mset (concat (map (published sampleApproval sampleExecutions sampleConvert
                                    sampleMessages) (take 4 sampleParts))) +
               mset [ToolResultPart ''c4'' (JString ''Error: No execute function found on tool'')] +
               mset (concat (map (published sampleApproval sampleExecutions sampleConvert
                                    sampleMessages) (drop (Suc 4) sampleParts)))"
    by (simp only: k c if_True) blast
  have "ToolResultPart ''c4'' (JString ''Error: No execute function found on tool'')
          \<in># mset evs"
    unfolding me by simp
  then have "ToolResultPart ''c4'' (JString ''Error: No execute function found on tool'')
               \<in> set (dataStream w')"
    by (simp add: ds)
  with run qs show ?thesis by blast
qed

text \<open>
  C4: a part whose tool name is not a key of \<open>executions\<close> is returned identical to its
  input. The code does not do this for a name that \<open>executions\<close> inherits from its
  prototype: \<open>toString\<close> is not a key of the sample \<open>executions\<close>, yet the denied part that
  names it is rewritten with the denial message, and the denial is written to the stream.
\<close>

theorem inherited_name_rewritten:
  "own sampleExecutions (toolName (sampleCall ''c7'' ''toString'')) = None \<and>
   inheritedParts ! 0 =
     ToolInvocationUIPart (ToolInvocationResult (sampleCall ''c7'' ''toString'')
       (JString (NO sampleApproval))) \<and>
   returnedPart (processToolCalls sampleApproval sampleExecutions sampleConvert sampleSettle
                   sampleInherited idle) 0 =
     Some (ToolInvocationUIPart (ToolInvocationResult (sampleCall ''c7'' ''toString'')
             (JString ''Error: User denied access to tool execution''))) \<and>
   returnedPart (processToolCalls sampleApproval sampleExecutions sampleConvert sampleSettle
                   sampleInherited idle) 0 \<noteq> Some (inheritedParts ! 0) \<and>
   returnedStream (processToolCalls sampleApproval sampleExecutions sampleConvert sampleSettle
                     sampleInherited idle) =
     Some [ToolResultPart ''c7'' (JString ''Error: User denied access to tool execution'')]"
proof (intro conjI)
  show "own sampleExecutions (toolName (sampleCall ''c7'' ''toString'')) = None"
    by (simp add: sampleExecutions_def sampleCall_def)
  show "inheritedParts ! 0 =
     ToolInvocationUIPart (ToolInvocationResult (sampleCall ''c7'' ''toString'')
       (JString (NO sampleApproval)))"
    by code_simp
  show "returnedPart (processToolCalls sampleApproval sampleExecutions sampleConvert sampleSettle
                   sampleInherited idle) 0 =
     Some (ToolInvocationUIPart (ToolInvocationResult (sampleCall ''c7'' ''toString'')
             (JString ''Error: User denied access to tool execution'')))"
    by code_simp
  show "returnedPart (processToolCalls sampleApproval sampleExecutions sampleConvert sampleSettle
                   sampleInherited idle) 0 \<noteq> Some (inheritedParts ! 0)"
    by code_simp
  show "returnedStream (processToolCalls sampleApproval sampleExecutions sampleConvert
          sampleSettle sampleInherited idle) =
     Some [ToolResultPart ''c7'' (JString ''Error: User denied access to tool execution'')]"
    by code_simp
qed

text \<open>
  C5. For a last message with parts \<open>ps\<close>, the output message has as many parts, and the
  part at each position \<open>i\<close> is the reconciliation of the input part at position \<open>i\<close>.
  This holds for every order \<open>settle\<close> in which the resolver promises settle, and any other
  order \<open>settle'\<close> yields the same transcript.
\<close>

theorem order_preserved:
  assumes ne: "messages \<noteq> []" and ps: "parts (last messages) = Some ps"
  shows "\<exists>out w' w'' qs.
           processToolCalls A ex conv settle messages w = Some (Inr (out, w')) \<and>
           processToolCalls A ex conv settle' messages w = Some (Inr (out, w'')) \<and>
           parts (last out) = Some qs \<and> length qs = length ps \<and>
           (\<forall>i<length ps. qs ! i = reconciled A ex conv messages (ps ! i))"
  unfolding processToolCalls_run [OF ne ps] by simp

theorem order_preserved_witness:
  "\<exists>out w' w'' qs.
     processToolCalls sampleApproval sampleExecutions sampleConvert sampleSettle
       sampleMessages idle = Some (Inr (out, w')) \<and>
     processToolCalls sampleApproval sampleExecutions sampleConvert (\<lambda>i. i)
       sampleMessages idle = Some (Inr (out, w'')) \<and>
     parts (last out) = Some qs \<and> length qs = 6 \<and>
     qs ! 1 = ToolInvocationUIPart
                (ToolInvocationResult (sampleCall ''c1'' ''getWeatherInformation'')
                   (JString ''The weather in Lima is sunny'')) \<and>
     qs ! 3 = ToolInvocationUIPart
                (ToolInvocationResult (sampleCall ''c3'' ''sendWebhook'')
                   (JString ''Error executing tool: Error: No agent found''))"
proof -
  have l: "length sampleParts = 6"
    by (simp add: sampleParts_def)
  have r1: "reconciled sampleApproval sampleExecutions sampleConvert sampleMessages
              (sampleParts ! 1) =
            ToolInvocationUIPart
              (ToolInvocationResult (sampleCall ''c1'' ''getWeatherInformation'')
                 (JString ''The weather in Lima is sunny''))"
    by code_simp
  have r3: "reconciled sampleApproval sampleExecutions sampleConvert sampleMessages
              (sampleParts ! 3) =
            ToolInvocationUIPart
              (ToolInvocationResult (sampleCall ''c3'' ''sendWebhook'')
                 (JString ''Error executing tool: Error: No agent found''))"
    by code_simp
  from order_preserved [where A=sampleApproval and ex=sampleExecutions
            and conv=sampleConvert and settle=sampleSettle and settle'="\<lambda>i. i" and w=idle,
            OF sample_nonempty sample_parts]
  obtain out w' w'' qs where
    run: "processToolCalls sampleApproval sampleExecutions sampleConvert sampleSettle
            sampleMessages idle = Some (Inr (out, w'))"
         "processToolCalls sampleApproval sampleExecutions sampleConvert (\<lambda>i. i)
            sampleMessages idle = Some (Inr (out, w''))"
    and qs: "parts (last out) = Some qs" "length qs = length sampleParts"
    and each: "\<forall>i<length sampleParts.
                 qs ! i = reconciled sampleApproval sampleExecutions sampleConvert
                            sampleMessages (sampleParts ! i)"
    by blast
  have "qs ! 1 = reconciled sampleApproval sampleExecutions sampleConvert
                   sampleMessages (sampleParts ! 1)"
    and "qs ! 3 = reconciled sampleApproval sampleExecutions sampleConvert
                   sampleMessages (sampleParts ! 3)"
    using each [rule_format, of 1] each [rule_format, of 3] by (simp_all add: l)
  with run qs show ?thesis
    by (simp only: l r1 r3) blast
qed

text \<open>
  C6. For a non-empty transcript the returned list has the length of the input, every
  message but the last is the input message at the same position, and the last message
  is the input's last message with at most its \<open>parts\<close> replaced: id, role, content and
  timestamp are those of the input. (Messages are values here, so "the same object" is
  equality.)
\<close>

theorem only_last_message_replaced:
  assumes ne: "messages \<noteq> []"
  shows "\<exists>out w'.
           processToolCalls A ex conv settle messages w = Some (Inr (out, w')) \<and>
           length out = length messages \<and>
           (\<forall>k. Suc k < length messages \<longrightarrow> out ! k = messages ! k) \<and>
           last out = (last messages)\<lparr>parts := parts (last out)\<rparr> \<and>
           id' (last out) = id' (last messages) \<and>
           role (last out) = role (last messages) \<and>
           content (last out) = content (last messages) \<and>
           createdAt (last out) = createdAt (last messages)"
proof (cases "parts (last messages)")
  case None
  then have "last messages = (last messages)\<lparr>parts := parts (last messages)\<rparr>"
    by simp
  then show ?thesis
    unfolding processToolCalls_plain [OF ne None] by simp
next
  case (Some ps)
  have l: "length (butlast messages) = length messages - 1"
    by simp
  have n: "\<And>k. Suc k < length messages \<Longrightarrow>
             (butlast messages @ [m]) ! k = messages ! k" for m :: message
    by (simp add: nth_append nth_butlast)
  show ?thesis
    unfolding processToolCalls_run [OF ne Some]
    using ne n by (simp add: l)
qed

theorem only_last_message_replaced_witness:
  "\<exists>out w'.
     processToolCalls sampleApproval sampleExecutions sampleConvert sampleSettle
       sampleMessages idle = Some (Inr (out, w')) \<and>
     length out = 2 \<and> out ! 0 = sampleMessages ! 0 \<and>
     id' (last out) = ''m2'' \<and> role (last out) = Assistant \<and>
     content (last out) = [] \<and> createdAt (last out) = Some 2"
proof -
  have l: "length sampleMessages = 2" and "Suc 0 < length sampleMessages"
    and "id' (last sampleMessages) = ''m2''" and "role (last sampleMessages) = Assistant"
    and "content (last sampleMessages) = []" and "createdAt (last sampleMessages) = Some 2"
    by (simp_all add: sampleMessages_def sampleAssistant_def)
  then show ?thesis
    using only_last_message_replaced [where A=sampleApproval and ex=sampleExecutions
            and conv=sampleConvert and settle=sampleSettle and w=idle,
            OF sample_nonempty]
    by auto
qed

text \<open>
  C7. When no part of the last message is a tool invocation in state \<open>result\<close> whose result
  is one of the two sentinels, a pass returns the transcript it was given and leaves the
  effects as they were; hence a second pass over the output of the first leaves it
  unchanged, and no resolver is called (the call log does not grow): a part in state
  \<open>result\<close> with a payload that is not a sentinel is not executed again.
\<close>

theorem idempotent_pass:
  assumes ne: "messages \<noteq> []"
    and q: "case parts (last messages) of
              None \<Rightarrow> True
            | Some ps \<Rightarrow>
                \<forall>p\<in>set ps.
                  case p of
                    ToolInvocationUIPart ti \<Rightarrow>
                      \<not> (state ti = Result \<and>
                         (result ti = JString (YES A) \<or> result ti = JString (NO A)))
                  | _ \<Rightarrow> True"
  shows "processToolCalls A ex conv settle messages w = Some (Inr (messages, w)) \<and>
         (\<exists>out w1.
            processToolCalls A ex conv settle messages w = Some (Inr (out, w1)) \<and>
            processToolCalls A ex conv settle' out w1 = Some (Inr (out, w1)) \<and>
            calls w1 = calls w)"
proof -
  have "case parts (last messages) of
          None \<Rightarrow> True
        | Some ps \<Rightarrow> \<forall>p\<in>set ps. \<not> forwards A ex p"
  proof (cases "parts (last messages)")
    case None
    then show ?thesis by simp
  next
    case (Some ps)
    have "\<not> forwards A ex p" if "p \<in> set ps" for p
      using q that Some by (cases p) (auto simp: forwards_def)
    with Some show ?thesis by simp
  qed
  then have "processToolCalls A ex conv s messages w = Some (Inr (messages, w))" for s
    by (rule unchanged_pass [OF ne])
  then show ?thesis by simp
qed

theorem idempotent_pass_witness:
  "processToolCalls sampleApproval sampleExecutions sampleConvert sampleSettle
     sampleAnswered idle = Some (Inr (sampleAnswered, idle)) \<and>
   (\<exists>out w1.
      processToolCalls sampleApproval sampleExecutions sampleConvert sampleSettle
        sampleAnswered idle = Some (Inr (out, w1)) \<and>
      processToolCalls sampleApproval sampleExecutions sampleConvert (\<lambda>i. i) out w1 =
        Some (Inr (out, w1)) \<and>
      calls w1 = calls idle)"
proof (rule idempotent_pass)
  show "sampleAnswered \<noteq> []"
    by (simp add: sampleAnswered_def)
  show "case parts (last sampleAnswered) of
          None \<Rightarrow> True
        | Some ps \<Rightarrow>
            \<forall>p\<in>set ps.
              case p of
                ToolInvocationUIPart ti \<Rightarrow>
                  \<not> (state ti = Result \<and>
                     (result ti = JString (YES sampleApproval) \<or>
                      result ti = JString (NO sampleApproval)))
              | _ \<Rightarrow> True"
    by (simp add: sampleAnswered_def sampleAssistant_def sampleApproval_def)
qed

text \<open>
  C8. When the pass returns, the stream holds, after what it held before, exactly the
  parts published for the individual parts of the message (in some order). A part that
  reaches lines 282-300 (a tool invocation whose name is found in \<open>executions\<close>, in state
  \<open>result\<close>, whose result is one of the two sentinels) publishes exactly one
  \<open>tool_result\<close> part, with its own \<open>toolCallId\<close> and with the result that is written
  into the rewritten part; every other part is returned unchanged and publishes nothing.
\<close>

theorem outcome_published:
  assumes ne: "messages \<noteq> []" and ps: "parts (last messages) = Some ps"
  shows "\<exists>out w' evs.
           processToolCalls A ex conv settle messages w = Some (Inr (out, w')) \<and>
           parts (last out) = Some (map (reconciled A ex conv messages) ps) \<and>
           dataStream w' = dataStream w @ evs \<and>
           mset evs = mset (concat (map (published A ex conv messages) ps)) \<and>
           (\<forall>p\<in>set ps.
              if forwards A ex p
              then \<exists>ti r. p = ToolInvocationUIPart ti \<and>
                     reconciled A ex conv messages p =
                       ToolInvocationUIPart (ToolInvocationResult (call ti) r) \<and>
                     published A ex conv messages p =
                       [ToolResultPart (toolCallId (call ti)) r]
              else reconciled A ex conv messages p = p \<and>
                   published A ex conv messages p = [])"
proof -
  have each: "\<forall>p\<in>set ps.
              if forwards A ex p
              then \<exists>ti r. p = ToolInvocationUIPart ti \<and>
                     reconciled A ex conv messages p =
                       ToolInvocationUIPart (ToolInvocationResult (call ti) r) \<and>
                     published A ex conv messages p =
                       [ToolResultPart (toolCallId (call ti)) r]
              else reconciled A ex conv messages p = p \<and>
                   published A ex conv messages p = []"
  proof
    fix p assume "p \<in> set ps"
    show "if forwards A ex p
          then \<exists>ti r. p = ToolInvocationUIPart ti \<and>
                 reconciled A ex conv messages p =
                   ToolInvocationUIPart (ToolInvocationResult (call ti) r) \<and>
                 published A ex conv messages p =
                   [ToolResultPart (toolCallId (call ti)) r]
          else reconciled A ex conv messages p = p \<and>
               published A ex conv messages p = []"
    proof (cases "forwards A ex p")
      case True
      then show ?thesis
        using forwards_alone [OF True, of conv messages] by auto
    next
      case False
      then show ?thesis
        by (simp add: not_forwards_alone)
    qed
  qed
  show ?thesis
    unfolding processToolCalls_run [OF ne ps]
    using each mset_streamed [of A ex conv settle messages ps]
    by (simp add: after_def)
qed

theorem outcome_published_witness:
  "\<exists>out w' evs.
     processToolCalls sampleApproval sampleExecutions sampleConvert sampleSettle
       sampleMessages idle = Some (Inr (out, w')) \<and>
     dataStream w' = evs \<and>
     mset evs =
       mset [ToolResultPart ''c1'' (JString ''The weather in Lima is sunny''),
             ToolResultPart ''c2'' (JString ''Error: User denied access to tool execution''),
             ToolResultPart ''c3'' (JString ''Error executing tool: Error: No agent found''),
             ToolResultPart ''c4'' (JString ''Error: No execute function found on tool'')]"
  using outcome_published [where A=sampleApproval and ex=sampleExecutions
          and conv=sampleConvert and settle=sampleSettle and w=idle,
          OF sample_nonempty sample_parts]
  unfolding sample_published
  by (auto simp: idle_def)

text \<open>
  C9. For a non-empty transcript whose last message has no parts collection,
  \<open>processToolCalls\<close> returns the input transcript itself; no resolver is called and
  nothing is written to the stream (the effects are those it started with).
\<close>

theorem no_parts_unchanged:
  assumes "messages \<noteq> []" and "parts (last messages) = None"
  shows "processToolCalls A ex conv settle messages w = Some (Inr (messages, w))"
  using assms by (simp add: processToolCalls_def)

theorem no_parts_unchanged_witness:
  "processToolCalls sampleApproval sampleExecutions sampleConvert sampleSettle
     (take 1 sampleMessages) idle = Some (Inr (take 1 sampleMessages, idle))"
  by (rule no_parts_unchanged) (simp_all add: sampleMessages_def sampleUser_def)

text \<open>
  C10. On the empty transcript the read of the last message's \<open>parts\<close> raises a
  \<open>TypeError\<close>; on every non-empty transcript \<open>processToolCalls\<close> returns messages, so
  the error branch is not reachable there.
\<close>

theorem last_message_access:
  "processToolCalls A ex conv settle [] w = Some (Inl TypeError) \<and>
   (messages \<noteq> [] \<longrightarrow>
      (\<exists>out w'. processToolCalls A ex conv settle messages w = Some (Inr (out, w'))))"
proof (intro conjI impI)
  show "processToolCalls A ex conv settle [] w = Some (Inl TypeError)"
    by (simp add: processToolCalls_def)
next
  assume ne: "messages \<noteq> []"
  show "\<exists>out w'. processToolCalls A ex conv settle messages w = Some (Inr (out, w'))"
  proof (cases "parts (last messages)")
    case None
    with ne show ?thesis by (simp add: processToolCalls_def)
  next
    case (Some ps)
    show ?thesis
      unfolding processToolCalls_run [OF ne Some] by blast
  qed
qed

theorem last_message_access_witness:
  "sampleMessages \<noteq> [] \<and>
   (\<exists>out w'. processToolCalls sampleApproval sampleExecutions sampleConvert sampleSettle
      sampleMessages idle = Some (Inr (out, w')))"
  using last_message_access [of sampleApproval sampleExecutions sampleConvert sampleSettle
      idle sampleMessages]
  by (simp add: sample_nonempty)

end
